theory Spec2Isabelle
  imports Main "HOL-Library.Char_ord" "HOL-Library.List_Lexorder" "HOL-Library.Product_Lexorder"
    "HOL-Library.Multiset"
begin

section \<open>Data model\<close>

text \<open>
  Instants are milliseconds since the epoch. The store keeps timestamps as the ISO-8601 text
  written by \<^verbatim>\<open>toISOString()\<close>; that text is modelled by the instant it denotes (for
  such text the textual order of SQL's \<^verbatim>\<open>ORDER BY\<close> is the order of the instants).
  A JavaScript \<^verbatim>\<open>Date\<close> built from data that came over the network may be invalid, and
  then \<^verbatim>\<open>getTime()\<close> is NaN.
\<close>

type_synonym instant = int

datatype js_date = Instant instant | InvalidDate

fun getTime :: "js_date \<Rightarrow> int option" where
  "getTime (Instant t) = Some t"
| "getTime InvalidDate = None"

text \<open>JavaScript's \<^verbatim>\<open>>\<close> on numbers, \<open>None\<close> being NaN: false as soon as one side is NaN.\<close>

fun js_gt :: "int option \<Rightarrow> int option \<Rightarrow> bool" where
  "js_gt (Some a) (Some b) = (a > b)"
| "js_gt _ _ = False"

datatype sync_status = Pending | InProgress | Synced | Error | Failed

datatype operation = Create | Update | Delete

text \<open>The \<^verbatim>\<open>Task\<close> object, with the fields that \<^verbatim>\<open>mapRowToTask\<close> builds.\<close>

record Task =
  tid :: string
  title :: string
  description :: string
  completed :: bool
  created_at :: js_date
  updated_at :: js_date
  is_deleted :: bool
  sync_status :: sync_status
  server_id :: "string option"
  last_synced_at :: "js_date option"

text \<open>
  \<^verbatim>\<open>Partial<Task>\<close>: every key is absent (\<open>None\<close>) or carries a value of the field's
  type. The two optional fields of \<^verbatim>\<open>Task\<close> may be present with the value
  \<^verbatim>\<open>undefined\<close> (\<open>Some None\<close>).
\<close>

record task_patch =
  p_id :: "string option"
  p_title :: "string option"
  p_description :: "string option"
  p_completed :: "bool option"
  p_created_at :: "js_date option"
  p_updated_at :: "js_date option"
  p_is_deleted :: "bool option"
  p_sync_status :: "sync_status option"
  p_server_id :: "string option option"
  p_last_synced_at :: "js_date option option"

text \<open>A row of table \<^verbatim>\<open>tasks\<close>: booleans are stored as 0/1, timestamps as text.\<close>

record task_row =
  r_id :: string
  r_title :: string
  r_description :: string
  r_completed :: int
  r_created_at :: instant
  r_updated_at :: instant
  r_is_deleted :: int
  r_sync_status :: sync_status
  r_server_id :: "string option"
  r_last_synced_at :: "instant option"

text \<open>
  A row of table \<^verbatim>\<open>sync_queue\<close>, which is also the \<^verbatim>\<open>SyncQueueItem\<close> that
  \<^verbatim>\<open>getSyncQueueItems\<close> builds from it field by field. The \<^verbatim>\<open>data\<close> column holds
  the JSON text of a task snapshot; it is modelled by the snapshot. The rows are written by
  \<^verbatim>\<open>addToSyncQueue\<close> only, so \<open>created_at\<close> always denotes an instant.
\<close>

record SyncQueueItem =
  q_id :: string
  q_task_id :: string
  q_operation :: operation
  q_data :: Task
  q_created_at :: instant
  q_retry_count :: int
  q_error_message :: "string option"

text \<open>
  The text of a \<^verbatim>\<open>data\<close> column: the JSON text that \<^verbatim>\<open>JSON.stringify\<close> gives for a
  snapshot, or the text \<^verbatim>\<open>[object Object]\<close>.
\<close>

datatype data_text = JsonText Task | ObjectObjectText

text \<open>
  What the queue's \<^verbatim>\<open>data\<close> column holds for an item: \<^verbatim>\<open>addToSyncQueue\<close> binds
  \<^verbatim>\<open>JSON.stringify(data)\<close>, and \<^verbatim>\<open>getSyncQueueItems\<close> reads it back with
  \<^verbatim>\<open>JSON.parse\<close>.
\<close>

definition queue_data_text :: "SyncQueueItem \<Rightarrow> data_text" where
  "queue_data_text item = JsonText (q_data item)"

text \<open>
  Modelled from the spec: the store adapter (\<^verbatim>\<open>db/database\<close>) is not among the sources.
  The spec has the \<^verbatim>\<open>data\<close> column hold text; a statement parameter that is an object and
  not a string is stored as its conversion to a string, which for a plain object is the text
  \<^verbatim>\<open>[object Object]\<close>, whatever the object holds.
\<close>

definition bound_object_text :: "Task \<Rightarrow> data_text" where
  "bound_object_text obj = ObjectObjectText"

text \<open>A row of table \<^verbatim>\<open>dead_letter_queue\<close>: the eight columns of the INSERT.\<close>

record dead_letter =
  dl_id :: string
  dl_task_id :: string
  dl_operation :: operation
  dl_data :: data_text
  dl_created_at :: instant
  dl_failed_at :: instant
  dl_retry_count :: int
  dl_final_error_message :: string

section \<open>The store\<close>

text \<open>
  The statements the two services pass to \<^verbatim>\<open>db.run\<close>, one constructor per SQL text, with
  the bound parameters in the order of the source.
\<close>

datatype statement =
    InsertTask task_row
  | UpdateTaskFields string string int instant sync_status string
  | SoftDeleteTask instant sync_status string
  | InsertSyncQueue SyncQueueItem
  | UpdateTaskSync sync_status instant "string option" string
  | DeleteQueueByTask string
  | UpdateTaskStatus sync_status string
  | DeleteQueueById string
  | UpdateQueueRetry int string string
  | InsertDeadLetter dead_letter

text \<open>
  The three tables, rows in insertion order, and the journal: the statements passed to
  \<^verbatim>\<open>db.run\<close> so far, in the order of the calls. No uniqueness of keys is assumed: an
  UPDATE or DELETE acts on every row its WHERE selects. The store adapter and the schema are
  not part of the sources; every statement is taken to run without error.
\<close>

record database =
  tasks :: "task_row list"
  sync_queue :: "SyncQueueItem list"
  dead_letter_queue :: "dead_letter list"
  journal :: "statement list"

fun exec :: "statement \<Rightarrow> database \<Rightarrow> database" where
  "exec (InsertTask r) db = db\<lparr>tasks := tasks db @ [r]\<rparr>"
| "exec (UpdateTaskFields ti de co now st i) db =
     db\<lparr>tasks := map (\<lambda>r. if r_id r = i \<and> r_is_deleted r = 0
        then r\<lparr>r_title := ti, r_description := de, r_completed := co,
               r_updated_at := now, r_sync_status := st\<rparr>
        else r) (tasks db)\<rparr>"
| "exec (SoftDeleteTask now st i) db =
     db\<lparr>tasks := map (\<lambda>r. if r_id r = i \<and> r_is_deleted r = 0
        then r\<lparr>r_is_deleted := 1, r_updated_at := now, r_sync_status := st\<rparr>
        else r) (tasks db)\<rparr>"
| "exec (InsertSyncQueue q) db = db\<lparr>sync_queue := sync_queue db @ [q]\<rparr>"
| "exec (UpdateTaskSync st now sid i) db =
     db\<lparr>tasks := map (\<lambda>r. if r_id r = i
        then (case sid of
                None \<Rightarrow> r\<lparr>r_sync_status := st, r_last_synced_at := Some now\<rparr>
              | Some s \<Rightarrow> r\<lparr>r_sync_status := st, r_last_synced_at := Some now,
                           r_server_id := Some s\<rparr>)
        else r) (tasks db)\<rparr>"
| "exec (DeleteQueueByTask i) db =
     db\<lparr>sync_queue := filter (\<lambda>q. q_task_id q \<noteq> i) (sync_queue db)\<rparr>"
| "exec (UpdateTaskStatus st i) db =
     db\<lparr>tasks := map (\<lambda>r. if r_id r = i then r\<lparr>r_sync_status := st\<rparr> else r) (tasks db)\<rparr>"
| "exec (DeleteQueueById i) db =
     db\<lparr>sync_queue := filter (\<lambda>q. q_id q \<noteq> i) (sync_queue db)\<rparr>"
| "exec (UpdateQueueRetry n msg i) db =
     db\<lparr>sync_queue := map (\<lambda>q. if q_id q = i
        then q\<lparr>q_retry_count := n, q_error_message := Some msg\<rparr>
        else q) (sync_queue db)\<rparr>"
| "exec (InsertDeadLetter d) db = db\<lparr>dead_letter_queue := dead_letter_queue db @ [d]\<rparr>"

definition db_run :: "statement \<Rightarrow> database \<Rightarrow> database" where
  "db_run s db = (exec s db)\<lparr>journal := journal db @ [s]\<rparr>"

section \<open>TaskService\<close>

definition mapRowToTask :: "task_row \<Rightarrow> Task" where
  "mapRowToTask row =
     \<lparr>tid = r_id row, title = r_title row, description = r_description row,
      completed = (r_completed row \<noteq> 0),
      created_at = Instant (r_created_at row),
      updated_at = Instant (r_updated_at row),
      is_deleted = (r_is_deleted row \<noteq> 0),
      sync_status = r_sync_status row,
      server_id = r_server_id row,
      last_synced_at = map_option Instant (r_last_synced_at row)\<rparr>"

definition addToSyncQueue ::
  "string \<Rightarrow> operation \<Rightarrow> Task \<Rightarrow> string \<Rightarrow> instant \<Rightarrow> database \<Rightarrow> database" where
  "addToSyncQueue taskId oper dat queueId now db =
     db_run (InsertSyncQueue
       \<lparr>q_id = queueId, q_task_id = taskId, q_operation = oper, q_data = dat,
        q_created_at = now, q_retry_count = 0, q_error_message = None\<rparr>) db"

definition getTask :: "string \<Rightarrow> database \<Rightarrow> Task option" where
  "getTask i db =
     (case find (\<lambda>r. r_id r = i \<and> r_is_deleted r = 0) (tasks db) of
        None \<Rightarrow> None
      | Some row \<Rightarrow> Some (mapRowToTask row))"

text \<open>
  \<^verbatim>\<open>ORDER BY created_at DESC\<close>: a stable sort on the negated instant, so that rows of the
  same \<open>created_at\<close> stay in insertion order.
\<close>

definition getAllTasks :: "database \<Rightarrow> Task list" where
  "getAllTasks db =
     map mapRowToTask
       (sort_key (\<lambda>r. - r_created_at r) (filter (\<lambda>r. r_is_deleted r = 0) (tasks db)))"

definition getTasksNeedingSync :: "database \<Rightarrow> Task list" where
  "getTasksNeedingSync db =
     map mapRowToTask
       (sort_key r_updated_at
          (filter (\<lambda>r. r_sync_status r = Pending \<or> r_sync_status r = Error) (tasks db)))"

text \<open>
  \<^verbatim>\<open>createTask\<close>. The fresh identifiers of \<^verbatim>\<open>uuidv4()\<close> and the two readings of the
  clock (one here, one in \<^verbatim>\<open>addToSyncQueue\<close>) are parameters. \<^verbatim>\<open>x || ''\<close> is the
  empty string for an absent as for an empty \<open>x\<close>.
\<close>

definition createTask ::
  "task_patch \<Rightarrow> string \<Rightarrow> instant \<Rightarrow> string \<Rightarrow> instant \<Rightarrow> database \<Rightarrow> Task \<times> database" where
  "createTask taskData newId now queueId qnow db =
     (let task = \<lparr>tid = newId,
                  title = (case p_title taskData of None \<Rightarrow> '''' | Some s \<Rightarrow> s),
                  description = (case p_description taskData of None \<Rightarrow> '''' | Some s \<Rightarrow> s),
                  completed = (case p_completed taskData of None \<Rightarrow> False | Some b \<Rightarrow> b),
                  created_at = Instant now, updated_at = Instant now,
                  is_deleted = False, sync_status = Pending,
                  server_id = None, last_synced_at = None\<rparr>;
          db1 = db_run (InsertTask
                  \<lparr>r_id = tid task, r_title = title task, r_description = description task,
                   r_completed = (if completed task then 1 else 0),
                   r_created_at = now, r_updated_at = now,
                   r_is_deleted = (if is_deleted task then 1 else 0),
                   r_sync_status = sync_status task,
                   r_server_id = None, r_last_synced_at = None\<rparr>) db
      in (task, addToSyncQueue (tid task) Create task queueId qnow db1))"

text \<open>The object spread \<^verbatim>\<open>{...existingTask, ...updates}\<close>.\<close>

definition spread :: "Task \<Rightarrow> task_patch \<Rightarrow> Task" where
  "spread t u =
     \<lparr>tid = (case p_id u of None \<Rightarrow> tid t | Some v \<Rightarrow> v),
      title = (case p_title u of None \<Rightarrow> title t | Some v \<Rightarrow> v),
      description = (case p_description u of None \<Rightarrow> description t | Some v \<Rightarrow> v),
      completed = (case p_completed u of None \<Rightarrow> completed t | Some v \<Rightarrow> v),
      created_at = (case p_created_at u of None \<Rightarrow> created_at t | Some v \<Rightarrow> v),
      updated_at = (case p_updated_at u of None \<Rightarrow> updated_at t | Some v \<Rightarrow> v),
      is_deleted = (case p_is_deleted u of None \<Rightarrow> is_deleted t | Some v \<Rightarrow> v),
      sync_status = (case p_sync_status u of None \<Rightarrow> sync_status t | Some v \<Rightarrow> v),
      server_id = (case p_server_id u of None \<Rightarrow> server_id t | Some v \<Rightarrow> v),
      last_synced_at = (case p_last_synced_at u of None \<Rightarrow> last_synced_at t | Some v \<Rightarrow> v)\<rparr>"

definition updateTask ::
  "string \<Rightarrow> task_patch \<Rightarrow> instant \<Rightarrow> string \<Rightarrow> instant \<Rightarrow> database
     \<Rightarrow> Task option \<times> database" where
  "updateTask i updates now queueId qnow db =
     (case getTask i db of
        None \<Rightarrow> (None, db)
      | Some existingTask \<Rightarrow>
          (let updatedTask = (spread existingTask updates)
                 \<lparr>tid := i, updated_at := Instant now, sync_status := Pending\<rparr>;
               db1 = db_run (UpdateTaskFields (title updatedTask) (description updatedTask)
                        (if completed updatedTask then 1 else 0) now
                        (sync_status updatedTask) i) db
           in (Some updatedTask, addToSyncQueue i Update updatedTask queueId qnow db1)))"

definition deleteTask ::
  "string \<Rightarrow> instant \<Rightarrow> string \<Rightarrow> instant \<Rightarrow> database \<Rightarrow> bool \<times> database" where
  "deleteTask i now queueId qnow db =
     (case getTask i db of
        None \<Rightarrow> (False, db)
      | Some existingTask \<Rightarrow>
          (let db1 = db_run (SoftDeleteTask now Pending i) db;
               deletedTask = existingTask
                 \<lparr>is_deleted := True, updated_at := Instant now, sync_status := Pending\<rparr>
           in (True, addToSyncQueue i Delete deletedTask queueId qnow db1)))"

section \<open>SyncService: conflict resolution\<close>

definition resolveConflict :: "Task \<Rightarrow> Task \<Rightarrow> Task" where
  "resolveConflict localTask serverTask =
     (let localTime = getTime (updated_at localTask);
          serverTime = getTime (updated_at serverTask)
      in if js_gt localTime serverTime then localTask
         else if js_gt serverTime localTime then serverTask
         else serverTask)"

section \<open>SyncService: settling one item\<close>

definition MAX_RETRIES :: int where
  "MAX_RETRIES = 3"

text \<open>
  \<^verbatim>\<open>updateSyncStatus\<close>. Of \<^verbatim>\<open>serverData\<close> only \<^verbatim>\<open>serverData?.server_id\<close> is read, so
  that value is the parameter; the SQL gets its \<^verbatim>\<open>server_id = ?\<close> clause when the value is
  truthy, that is present and not the empty string.
\<close>

definition updateSyncStatus ::
  "string \<Rightarrow> sync_status \<Rightarrow> string option \<Rightarrow> instant \<Rightarrow> database \<Rightarrow> database" where
  "updateSyncStatus taskId status serverId now db =
     (let sid = (case serverId of None \<Rightarrow> None | Some v \<Rightarrow> if v = [] then None else Some v);
          db1 = db_run (UpdateTaskSync status now sid taskId) db
      in if status = Synced then db_run (DeleteQueueByTask taskId) db1 else db1)"

definition updateTaskSyncStatus :: "string \<Rightarrow> sync_status \<Rightarrow> database \<Rightarrow> database" where
  "updateTaskSyncStatus taskId status db = db_run (UpdateTaskStatus status taskId) db"

text \<open>
  \<^verbatim>\<open>moveToDeadLetterQueue\<close>. The parameter bound to the \<^verbatim>\<open>data\<close> column is
  \<^verbatim>\<open>item.data\<close>, the object that \<^verbatim>\<open>JSON.parse\<close> gave, with no
  \<^verbatim>\<open>JSON.stringify\<close>.
\<close>

definition moveToDeadLetterQueue ::
  "SyncQueueItem \<Rightarrow> string \<Rightarrow> instant \<Rightarrow> database \<Rightarrow> database" where
  "moveToDeadLetterQueue item errorMessage now db =
     db_run (InsertDeadLetter
       \<lparr>dl_id = q_id item, dl_task_id = q_task_id item, dl_operation = q_operation item,
        dl_data = bound_object_text (q_data item), dl_created_at = q_created_at item,
        dl_failed_at = now,
        dl_retry_count = q_retry_count item, dl_final_error_message = errorMessage\<rparr>) db"

text \<open>
  \<^verbatim>\<open>handleSyncError\<close>; \<open>now\<close> is what the clock gives \<^verbatim>\<open>moveToDeadLetterQueue\<close>
  when that is called. The other branch does not read the clock.
\<close>

definition handleSyncError ::
  "SyncQueueItem \<Rightarrow> string \<Rightarrow> instant \<Rightarrow> database \<Rightarrow> database" where
  "handleSyncError item message now db =
     (let newRetryCount = q_retry_count item + 1
      in if newRetryCount \<ge> MAX_RETRIES
         then db_run (DeleteQueueById (q_id item))
                (updateTaskSyncStatus (q_task_id item) Failed
                   (moveToDeadLetterQueue item message now db))
         else updateTaskSyncStatus (q_task_id item) Error
                (db_run (UpdateQueueRetry newRetryCount message (q_id item)) db))"

section \<open>SyncService: draining, grouping, batching\<close>

text \<open>\<^verbatim>\<open>ORDER BY task_id, created_at ASC\<close>.\<close>

definition getSyncQueueItems :: "database \<Rightarrow> SyncQueueItem list" where
  "getSyncQueueItems db = sort_key (\<lambda>q. (q_task_id q, q_created_at q)) (sync_queue db)"

text \<open>
  The \<^verbatim>\<open>Map\<close> of groups iterates in the order in which its keys were first set, so it is an
  association list; \<open>group_push\<close> is the body of the first loop.
\<close>

fun group_push ::
  "SyncQueueItem \<Rightarrow> (string \<times> SyncQueueItem list) list \<Rightarrow> (string \<times> SyncQueueItem list) list" where
  "group_push item [] = [(q_task_id item, [item])]"
| "group_push item ((k, v) # groups) =
     (if k = q_task_id item then (k, v @ [item]) # groups
      else (k, v) # group_push item groups)"

text \<open>\<^verbatim>\<open>Array.prototype.sort\<close> is stable, and so is \<open>sort_key\<close>.\<close>

definition groupItemsByTaskChronologically ::
  "SyncQueueItem list \<Rightarrow> (string \<times> SyncQueueItem list) list" where
  "groupItemsByTaskChronologically items =
     map (\<lambda>(taskId, taskItems). (taskId, sort_key q_created_at taskItems))
       (fold group_push items [])"

text \<open>
  The inner and the outer loop of \<^verbatim>\<open>createBatches\<close>, on the pair (batches, currentBatch).
  \<open>BATCH_SIZE\<close> is what \<^verbatim>\<open>parseInt\<close> reads from the environment, 10 by default: an
  integer, or NaN (\<open>None\<close>) when the text does not start with a number. It is a parameter, and
  nothing in the source keeps it a positive number. \<open>js_ge\<close> is \<^verbatim>\<open>>=\<close>, false against NaN.
\<close>

fun js_ge :: "int \<Rightarrow> int option \<Rightarrow> bool" where
  "js_ge a (Some b) = (a \<ge> b)"
| "js_ge a None = False"

fun batch_items ::
  "int option \<Rightarrow> SyncQueueItem list \<Rightarrow> SyncQueueItem list list \<times> SyncQueueItem list
     \<Rightarrow> SyncQueueItem list list \<times> SyncQueueItem list" where
  "batch_items bsize [] (batches, currentBatch) = (batches, currentBatch)"
| "batch_items bsize (item # rest) (batches, currentBatch) =
     (if js_ge (int (length currentBatch)) bsize
      then batch_items bsize rest (batches @ [currentBatch], [item])
      else batch_items bsize rest (batches, currentBatch @ [item]))"

fun batch_groups ::
  "int option \<Rightarrow> (string \<times> SyncQueueItem list) list
     \<Rightarrow> SyncQueueItem list list \<times> SyncQueueItem list
     \<Rightarrow> SyncQueueItem list list \<times> SyncQueueItem list" where
  "batch_groups bsize [] st = st"
| "batch_groups bsize ((taskId, taskItems) # groups) st =
     batch_groups bsize groups (batch_items bsize taskItems st)"

definition createBatches ::
  "int option \<Rightarrow> (string \<times> SyncQueueItem list) list \<Rightarrow> SyncQueueItem list list" where
  "createBatches BATCH_SIZE itemsByTask =
     (case batch_groups BATCH_SIZE itemsByTask ([], []) of
        (batches, currentBatch) \<Rightarrow>
          if length currentBatch > 0 then batches @ [currentBatch] else batches)"

section \<open>SyncService: the cycle\<close>

record SyncError =
  se_task_id :: string
  se_operation :: string
  se_error :: string
  se_timestamp :: instant

record SyncResult =
  success :: bool
  synced_items :: nat
  failed_items :: nat
  errors :: "SyncError list"

record processed_item =
  client_id :: string
  pi_server_id :: "string option"
  status :: string
  resolved_data :: "Task option"
  pi_error :: "string option"

text \<open>What the POST of one batch gives: the exception's message, or the response's items.\<close>

datatype batch_reply = TransportFailure string | Response "processed_item list"

fun operation_name :: "operation \<Rightarrow> string" where
  "operation_name Create = ''create''"
| "operation_name Update = ''update''"
| "operation_name Delete = ''delete''"

text \<open>
  \<^verbatim>\<open>processBatch\<close>. It reads the clock once, for the request's
  \<^verbatim>\<open>client_timestamp\<close>; the request goes to the server, whose answer is \<open>reply\<close>.
\<close>

definition processBatch ::
  "SyncQueueItem list \<Rightarrow> batch_reply \<Rightarrow> instant \<Rightarrow> database
     \<Rightarrow> (string + processed_item list) \<times> database" where
  "processBatch items reply client_timestamp db =
     (let db1 = fold (\<lambda>item. updateTaskSyncStatus (q_task_id item) InProgress) items db;
          batchRequest = (items, client_timestamp)
      in case reply of
           Response processed \<Rightarrow> (Inr processed, db1)
         | TransportFailure message \<Rightarrow>
             (Inl message, fold (\<lambda>item. updateTaskSyncStatus (q_task_id item) Error) items db1))"

text \<open>
  The state of a running cycle: the store, the result under construction, and how many times
  the clock has been read; the \<open>n\<close>-th reading of \<^verbatim>\<open>new Date()\<close> is \<open>clock n\<close>.
\<close>

record sync_run =
  run_db :: database
  run_result :: SyncResult
  run_ticks :: nat

text \<open>
  How often \<^verbatim>\<open>handleSyncError\<close> reads the clock for an item: once when it moves the item
  to the dead-letter store, not at all when it bumps the retry count.
\<close>

definition handleSyncError_clock_reads :: "SyncQueueItem \<Rightarrow> nat" where
  "handleSyncError_clock_reads item =
     (if q_retry_count item + 1 \<ge> MAX_RETRIES then 1 else 0)"

text \<open>
  Both error paths of the cycle: the failure handler, then the result's counters and the error
  record, stamped with the next reading of the clock.
\<close>

definition sync_item_failed ::
  "(nat \<Rightarrow> instant) \<Rightarrow> SyncQueueItem \<Rightarrow> string \<Rightarrow> sync_run \<Rightarrow> sync_run" where
  "sync_item_failed clock item message s =
     (let after_handler = run_ticks s + handleSyncError_clock_reads item
      in \<lparr>run_db = handleSyncError item message (clock (run_ticks s)) (run_db s),
          run_result = (run_result s)
            \<lparr>failed_items := failed_items (run_result s) + 1,
             errors := errors (run_result s) @
               [\<lparr>se_task_id = q_task_id item, se_operation = operation_name (q_operation item),
                 se_error = message, se_timestamp = clock after_handler\<rparr>]\<rparr>,
          run_ticks = after_handler + 1\<rparr>)"

definition sync_item_synced ::
  "(nat \<Rightarrow> instant) \<Rightarrow> SyncQueueItem \<Rightarrow> string option \<Rightarrow> sync_run \<Rightarrow> sync_run" where
  "sync_item_synced clock item serverId s =
     \<lparr>run_db = updateSyncStatus (q_task_id item) Synced serverId (clock (run_ticks s)) (run_db s),
      run_result = (run_result s)\<lparr>synced_items := synced_items (run_result s) + 1\<rparr>,
      run_ticks = run_ticks s + 1\<rparr>"

text \<open>The body of the loop over \<^verbatim>\<open>batchResponse.processed_items\<close>.\<close>

definition sync_processed_item ::
  "(nat \<Rightarrow> instant) \<Rightarrow> SyncQueueItem list \<Rightarrow> processed_item \<Rightarrow> sync_run \<Rightarrow> sync_run" where
  "sync_processed_item clock batch processedItem s =
     (case find (\<lambda>item. q_id item = client_id processedItem) batch of
        None \<Rightarrow> s
      | Some originalItem \<Rightarrow>
          (let message = (case pi_error processedItem of
                            None \<Rightarrow> ''Unknown sync error''
                          | Some e \<Rightarrow> if e = [] then ''Unknown sync error'' else e)
           in if status processedItem = ''success''
              then sync_item_synced clock originalItem (pi_server_id processedItem) s
              else if status processedItem = ''conflict''
              then (case resolved_data processedItem of
                      Some serverTask \<Rightarrow>
                        sync_item_synced clock originalItem
                          (server_id (resolveConflict (q_data originalItem) serverTask)) s
                    | None \<Rightarrow> sync_item_failed clock originalItem message s)
              else sync_item_failed clock originalItem message s))"

text \<open>The body of the loop over the batches: the \<^verbatim>\<open>try\<close> and its \<^verbatim>\<open>catch\<close>.\<close>

definition sync_batch ::
  "(nat \<Rightarrow> instant) \<Rightarrow> SyncQueueItem list \<Rightarrow> batch_reply \<Rightarrow> sync_run \<Rightarrow> sync_run" where
  "sync_batch clock batch reply s =
     (case processBatch batch reply (clock (run_ticks s)) (run_db s) of
        (Inr processed, db1) \<Rightarrow>
          fold (sync_processed_item clock batch) processed
            (s\<lparr>run_db := db1, run_ticks := Suc (run_ticks s)\<rparr>)
      | (Inl message, db1) \<Rightarrow>
          fold (\<lambda>item. sync_item_failed clock item message) batch
            (s\<lparr>run_db := db1, run_ticks := Suc (run_ticks s)\<rparr>))"

text \<open>The \<open>k\<close>-th batch posted gets the reply \<open>replies k\<close>.\<close>

fun sync_batches ::
  "(nat \<Rightarrow> instant) \<Rightarrow> (nat \<Rightarrow> batch_reply) \<Rightarrow> nat \<Rightarrow> SyncQueueItem list list
     \<Rightarrow> sync_run \<Rightarrow> sync_run" where
  "sync_batches clock replies k [] s = s"
| "sync_batches clock replies k (batch # rest) s =
     sync_batches clock replies (Suc k) rest (sync_batch clock batch (replies k) s)"

text \<open>
  \<^verbatim>\<open>sync\<close>. \<open>isConnected\<close> is what \<^verbatim>\<open>checkConnectivity\<close> returns. Failures of the store
  itself (the outer \<^verbatim>\<open>catch\<close>) are not modelled: every statement runs.
\<close>

definition sync ::
  "bool \<Rightarrow> (nat \<Rightarrow> batch_reply) \<Rightarrow> (nat \<Rightarrow> instant) \<Rightarrow> int option \<Rightarrow> database
     \<Rightarrow> SyncResult \<times> database" where
  "sync isConnected replies clock BATCH_SIZE db =
     (let result = \<lparr>success = True, synced_items = 0, failed_items = 0, errors = []\<rparr>
      in if \<not> isConnected
         then (result\<lparr>success := False,
                 errors := errors result @
                   [\<lparr>se_task_id = ''connection'', se_operation = ''connectivity_check'',
                     se_error = ''Server is not reachable'', se_timestamp = clock 0\<rparr>]\<rparr>, db)
         else (let queueItems = getSyncQueueItems db
               in if length queueItems = 0 then (result, db)
                  else (let itemsByTask = groupItemsByTaskChronologically queueItems;
                            batches = createBatches BATCH_SIZE itemsByTask;
                            s = sync_batches clock replies 0 batches
                                  \<lparr>run_db = db, run_result = result, run_ticks = 0\<rparr>
                        in ((run_result s)\<lparr>success := (length (errors (run_result s)) = 0)\<rparr>,
                            run_db s))))"

section \<open>The route that creates a task\<close>








section \<open>Properties of stores, runs and batches\<close>

text \<open>The retry bound: every queue row has fewer than \<open>MAX_RETRIES\<close> retries.\<close>

definition retry_bounded :: "database \<Rightarrow> bool" where
  "retry_bounded db = (\<forall>q\<in>set (sync_queue db). q_retry_count q < MAX_RETRIES)"

text \<open>
  The stores that the two services can build: from the empty store, by the operations of
  \<^verbatim>\<open>TaskService\<close>, by the public \<^verbatim>\<open>addToSyncQueue\<close>, and by sync cycles, with any
  arguments, clock and server.
\<close>

definition empty_database :: database where
  "empty_database = \<lparr>tasks = [], sync_queue = [], dead_letter_queue = [], journal = []\<rparr>"

inductive reachable :: "database \<Rightarrow> bool" where
  initial: "reachable empty_database"
| created: "reachable db \<Longrightarrow> reachable (snd (createTask taskData newId now queueId qnow db))"
| updated: "reachable db \<Longrightarrow> reachable (snd (updateTask i updates now queueId qnow db))"
| deleted: "reachable db \<Longrightarrow> reachable (snd (deleteTask i now queueId qnow db))"
| enqueued: "reachable db \<Longrightarrow> reachable (addToSyncQueue taskId oper dat queueId now db)"
| cycled: "reachable db \<Longrightarrow> reachable (snd (sync isConnected replies clock bsize db))"

text \<open>The record that \<^verbatim>\<open>moveToDeadLetterQueue\<close> inserts for an item.\<close>

definition dead_letter_of :: "SyncQueueItem \<Rightarrow> string \<Rightarrow> instant \<Rightarrow> dead_letter" where
  "dead_letter_of item e now =
     \<lparr>dl_id = q_id item, dl_task_id = q_task_id item, dl_operation = q_operation item,
      dl_data = bound_object_text (q_data item), dl_created_at = q_created_at item,
      dl_failed_at = now,
      dl_retry_count = q_retry_count item, dl_final_error_message = e\<rparr>"




text \<open>
  Two items in chronological order: of the same task only if the first was not created after
  the second. Groups are well formed when their keys are distinct and every item is in the
  group of its task.
\<close>

definition chronological :: "SyncQueueItem \<Rightarrow> SyncQueueItem \<Rightarrow> bool" where
  "chronological a b = (q_task_id a = q_task_id b \<longrightarrow> q_created_at a \<le> q_created_at b)"

definition well_grouped :: "(string \<times> SyncQueueItem list) list \<Rightarrow> bool" where
  "well_grouped g =
     (distinct (map fst g) \<and> (\<forall>(k, v)\<in>set g. \<forall>y\<in>set v. q_task_id y = k))"

text \<open>The object \<^verbatim>\<open>updatedTask\<close> that \<^verbatim>\<open>updateTask\<close> builds, returns and enqueues.\<close>

definition updated_task :: "string \<Rightarrow> Task \<Rightarrow> task_patch \<Rightarrow> instant \<Rightarrow> Task" where
  "updated_task i existing updates now =
     (spread existing updates)\<lparr>tid := i, updated_at := Instant now, sync_status := Pending\<rparr>"

text \<open>The WHERE clause of \<^verbatim>\<open>getTasksNeedingSync\<close>.\<close>

definition needs_sync :: "task_row \<Rightarrow> bool" where
  "needs_sync r = (r_sync_status r = Pending \<or> r_sync_status r = Error)"

section \<open>Example data\<close>

text \<open>
  A store with a live task \<open>a\<close> and a soft-deleted task \<open>b\<close>, each with one queued update,
  the second one retry away from the bound.
\<close>

definition demo_task :: "string \<Rightarrow> instant \<Rightarrow> Task" where
  "demo_task i t =
     \<lparr>tid = i, title = ''buy milk'', description = '''', completed = False,
      created_at = Instant 1, updated_at = Instant t, is_deleted = False,
      sync_status = Pending, server_id = None, last_synced_at = None\<rparr>"

definition demo_item :: "string \<Rightarrow> string \<Rightarrow> instant \<Rightarrow> int \<Rightarrow> SyncQueueItem" where
  "demo_item qi ti t n =
     \<lparr>q_id = qi, q_task_id = ti, q_operation = Update, q_data = demo_task ti t,
      q_created_at = t, q_retry_count = n, q_error_message = None\<rparr>"

definition demo_row :: "string \<Rightarrow> instant \<Rightarrow> int \<Rightarrow> sync_status \<Rightarrow> task_row" where
  "demo_row i t d st =
     \<lparr>r_id = i, r_title = ''buy milk'', r_description = '''', r_completed = 0,
      r_created_at = 1, r_updated_at = t, r_is_deleted = d, r_sync_status = st,
      r_server_id = None, r_last_synced_at = None\<rparr>"

definition demo_db :: database where
  "demo_db =
     \<lparr>tasks = [demo_row ''a'' 5 0 Pending, demo_row ''b'' 3 1 Error],
      sync_queue = [demo_item ''q1'' ''a'' 5 0, demo_item ''q2'' ''b'' 3 2],
      dead_letter_queue = [], journal = []\<rparr>"



text \<open>Four drained items, three of task \<open>a\<close> out of chronological order.\<close>

definition demo_items :: "SyncQueueItem list" where
  "demo_items =
     [demo_item ''q3'' ''a'' 30 0, demo_item ''q4'' ''b'' 5 0,
      demo_item ''q1'' ''a'' 10 0, demo_item ''q2'' ''a'' 20 0]"

text \<open>Patches: one with a title only, one with nothing, one that gives every field.\<close>

definition demo_patch :: task_patch where
  "demo_patch =
     \<lparr>p_id = None, p_title = Some ''buy milk'', p_description = None,
      p_completed = None, p_created_at = None, p_updated_at = None, p_is_deleted = None,
      p_sync_status = None, p_server_id = None, p_last_synced_at = None\<rparr>"


definition demo_override :: task_patch where
  "demo_override =
     \<lparr>p_id = Some ''z'', p_title = Some ''buy bread'', p_description = None,
      p_completed = Some True, p_created_at = Some (Instant 99), p_updated_at = Some (Instant 98),
      p_is_deleted = Some True, p_sync_status = Some Failed, p_server_id = Some (Some ''srv''),
      p_last_synced_at = Some (Some (Instant 97))\<rparr>"



definition demo_created :: Task where
  "demo_created =
     \<lparr>tid = ''a'', title = ''buy milk'', description = '''', completed = False,
      created_at = Instant 5, updated_at = Instant 5, is_deleted = False,
      sync_status = Pending, server_id = None, last_synced_at = None\<rparr>"


definition demo_created_item :: SyncQueueItem where
  "demo_created_item =
     \<lparr>q_id = ''q1'', q_task_id = ''a'', q_operation = Create, q_data = demo_created,
      q_created_at = 5, q_retry_count = 0, q_error_message = None\<rparr>"


text \<open>The two batches of size two that \<open>demo_items\<close> go into.\<close>

definition demo_batches :: "SyncQueueItem list list" where
  "demo_batches =
     [demo_item ''q1'' ''a'' 10 0, demo_item ''q2'' ''a'' 20 0]
     # [demo_item ''q3'' ''a'' 30 0, demo_item ''q4'' ''b'' 5 0] # []"

section \<open>Auxiliary facts\<close>

subsection \<open>The store\<close>

lemma tasks_db_run: "tasks (db_run s db) = tasks (exec s db)"
  and sync_queue_db_run: "sync_queue (db_run s db) = sync_queue (exec s db)"
  and dead_letter_db_run: "dead_letter_queue (db_run s db) = dead_letter_queue (exec s db)"
  and journal_db_run: "journal (db_run s db) = journal db @ [s]"
  by (simp_all add: db_run_def)

lemma find_Some_member: "find P xs = Some x \<Longrightarrow> x \<in> set xs \<and> P x"
  by (induction xs) (auto split: if_splits)


subsection \<open>The failure handler\<close>

lemma handleSyncError_retry:
  assumes "q_retry_count item + 1 < MAX_RETRIES"
  shows "sync_queue (handleSyncError item e now db) =
           map (\<lambda>q. if q_id q = q_id item
                 then q\<lparr>q_retry_count := q_retry_count item + 1, q_error_message := Some e\<rparr>
                 else q) (sync_queue db)"
    and "tasks (handleSyncError item e now db) =
           map (\<lambda>r. if r_id r = q_task_id item then r\<lparr>r_sync_status := Error\<rparr> else r) (tasks db)"
    and "dead_letter_queue (handleSyncError item e now db) = dead_letter_queue db"
    and "journal (handleSyncError item e now db) = journal db @
           [UpdateQueueRetry (q_retry_count item + 1) e (q_id item),
            UpdateTaskStatus Error (q_task_id item)]"
  using assms
  by (simp_all add: handleSyncError_def updateTaskSyncStatus_def Let_def
      tasks_db_run sync_queue_db_run dead_letter_db_run journal_db_run)

lemma handleSyncError_exhausted:
  assumes "\<not> q_retry_count item + 1 < MAX_RETRIES"
  shows "sync_queue (handleSyncError item e now db) =
           filter (\<lambda>q. q_id q \<noteq> q_id item) (sync_queue db)"
    and "tasks (handleSyncError item e now db) =
           map (\<lambda>r. if r_id r = q_task_id item then r\<lparr>r_sync_status := Failed\<rparr> else r) (tasks db)"
    and "dead_letter_queue (handleSyncError item e now db) =
           dead_letter_queue db @ [dead_letter_of item e now]"
    and "journal (handleSyncError item e now db) = journal db @
           [InsertDeadLetter (dead_letter_of item e now),
            UpdateTaskStatus Failed (q_task_id item),
            DeleteQueueById (q_id item)]"
  using assms
  by (simp_all add: handleSyncError_def updateTaskSyncStatus_def moveToDeadLetterQueue_def
      dead_letter_of_def Let_def
      tasks_db_run sync_queue_db_run dead_letter_db_run journal_db_run)

subsection \<open>The retry bound is invariant\<close>

lemma retry_bounded_handleSyncError:
  "retry_bounded db \<Longrightarrow> retry_bounded (handleSyncError item e now db)"
  by (cases "q_retry_count item + 1 < MAX_RETRIES")
     (auto simp: retry_bounded_def handleSyncError_retry handleSyncError_exhausted)

lemma retry_bounded_exec:
  "retry_bounded db \<Longrightarrow> (\<forall>q. s = InsertSyncQueue q \<longrightarrow> q_retry_count q < MAX_RETRIES)
     \<Longrightarrow> (\<forall>n m i. s = UpdateQueueRetry n m i \<longrightarrow> n < MAX_RETRIES)
     \<Longrightarrow> retry_bounded (db_run s db)"
  by (cases s) (auto simp: retry_bounded_def sync_queue_db_run)

lemma retry_bounded_addToSyncQueue:
  "retry_bounded db \<Longrightarrow> retry_bounded (addToSyncQueue t oper d qi now db)"
  by (simp add: addToSyncQueue_def retry_bounded_exec MAX_RETRIES_def)

lemma retry_bounded_createTask:
  "retry_bounded db \<Longrightarrow> retry_bounded (snd (createTask p i now qi qnow db))"
  by (simp add: createTask_def Let_def retry_bounded_addToSyncQueue retry_bounded_exec)

lemma retry_bounded_updateTask:
  "retry_bounded db \<Longrightarrow> retry_bounded (snd (updateTask i p now qi qnow db))"
  by (simp add: updateTask_def Let_def retry_bounded_addToSyncQueue retry_bounded_exec
      split: option.splits)

lemma retry_bounded_deleteTask:
  "retry_bounded db \<Longrightarrow> retry_bounded (snd (deleteTask i now qi qnow db))"
  by (simp add: deleteTask_def Let_def retry_bounded_addToSyncQueue retry_bounded_exec
      split: option.splits)

lemma retry_bounded_updateTaskSyncStatus:
  "retry_bounded db \<Longrightarrow> retry_bounded (updateTaskSyncStatus t st db)"
  by (simp add: updateTaskSyncStatus_def retry_bounded_exec)

lemma retry_bounded_updateSyncStatus:
  "retry_bounded db \<Longrightarrow> retry_bounded (updateSyncStatus t st sid now db)"
  by (simp add: updateSyncStatus_def Let_def retry_bounded_exec)

lemma retry_bounded_mark:
  "retry_bounded db \<Longrightarrow>
   retry_bounded (fold (\<lambda>item. updateTaskSyncStatus (q_task_id item) st) items db)"
  by (induction items arbitrary: db) (simp_all add: retry_bounded_updateTaskSyncStatus)

lemma retry_bounded_sync_item_failed:
  "retry_bounded (run_db s) \<Longrightarrow> retry_bounded (run_db (sync_item_failed clock item m s))"
  by (simp add: sync_item_failed_def Let_def retry_bounded_handleSyncError)

lemma retry_bounded_sync_item_synced:
  "retry_bounded (run_db s) \<Longrightarrow> retry_bounded (run_db (sync_item_synced clock item sid s))"
  by (simp add: sync_item_synced_def retry_bounded_updateSyncStatus)

lemma retry_bounded_sync_processed_item:
  "retry_bounded (run_db s) \<Longrightarrow> retry_bounded (run_db (sync_processed_item clock batch p s))"
  by (simp add: sync_processed_item_def Let_def retry_bounded_sync_item_failed
      retry_bounded_sync_item_synced split: option.splits)

lemma retry_bounded_sync_batch:
  assumes "retry_bounded (run_db s)"
  shows "retry_bounded (run_db (sync_batch clock batch reply s))"
proof (cases reply)
  case (TransportFailure m)
  have start: "retry_bounded (run_db (s\<lparr>run_db := db1\<rparr>))" if "retry_bounded db1" for db1
    using that by simp
  have "retry_bounded (run_db (fold (\<lambda>item. sync_item_failed clock item m) batch s'))"
    if "retry_bounded (run_db s')" for s'
    using that by (induction batch arbitrary: s') (simp_all add: retry_bounded_sync_item_failed)
  with TransportFailure assms show ?thesis
    by (simp add: sync_batch_def processBatch_def Let_def retry_bounded_mark)
next
  case (Response ps)
  have "retry_bounded (run_db (fold (sync_processed_item clock batch) ps s'))"
    if "retry_bounded (run_db s')" for s'
    using that by (induction ps arbitrary: s') (simp_all add: retry_bounded_sync_processed_item)
  with Response assms show ?thesis
    by (simp add: sync_batch_def processBatch_def Let_def retry_bounded_mark)
qed

lemma retry_bounded_sync_batches:
  "retry_bounded (run_db s) \<Longrightarrow> retry_bounded (run_db (sync_batches clock replies k batches s))"
  by (induction batches arbitrary: k s) (simp_all add: retry_bounded_sync_batch)

lemma retry_bounded_sync:
  "retry_bounded db \<Longrightarrow> retry_bounded (snd (sync c replies clock bs db))"
  by (simp add: sync_def Let_def retry_bounded_sync_batches)

lemma reachable_retry_bounded: "reachable db \<Longrightarrow> retry_bounded db"
proof (induction rule: reachable.induct)
  case initial
  show ?case by (simp add: retry_bounded_def empty_database_def)
qed (simp_all add: retry_bounded_createTask retry_bounded_updateTask retry_bounded_deleteTask
      retry_bounded_addToSyncQueue retry_bounded_sync)

lemma demo_reachable:
  "reachable (snd (createTask demo_patch ''a'' 5 ''q1'' 5 empty_database))"
  by (rule reachable.created) (rule reachable.initial)

subsection \<open>Steps of a cycle\<close>














subsection \<open>Batching\<close>

lemma batch_items_concat:
  "batch_items bs xs (B, c) = (B', c') \<Longrightarrow> concat B' @ c' = concat B @ c @ xs"
  by (induction xs arbitrary: B c) (auto split: if_splits)

lemma batch_groups_concat:
  "batch_groups bs gs (B, c) = (B', c') \<Longrightarrow> concat B' @ c' = concat B @ c @ concat (map snd gs)"
proof (induction gs arbitrary: B c)
  case Nil
  then show ?case by simp
next
  case (Cons g gs)
  obtain k v where g: "g = (k, v)" by (cases g)
  obtain B1 c1 where step: "batch_items bs v (B, c) = (B1, c1)"
    by (cases "batch_items bs v (B, c)")
  from Cons.prems g step have "batch_groups bs gs (B1, c1) = (B', c')" by simp
  then have "concat B' @ c' = concat B1 @ c1 @ concat (map snd gs)" by (rule Cons.IH)
  with batch_items_concat [OF step] g show ?case by simp
qed

lemma concat_createBatches: "concat (createBatches bs gs) = concat (map snd gs)"
proof -
  obtain B c where r: "batch_groups bs gs ([], []) = (B, c)"
    by (cases "batch_groups bs gs ([], [])")
  from batch_groups_concat [OF r] have "concat B @ c = concat (map snd gs)" by simp
  with r show ?thesis by (auto simp: createBatches_def)
qed

lemma batch_items_bound:
  "1 \<le> n \<Longrightarrow> \<forall>b\<in>set B. int (length b) \<le> n \<Longrightarrow> int (length c) \<le> n
     \<Longrightarrow> batch_items (Some n) xs (B, c) = (B', c')
     \<Longrightarrow> (\<forall>b\<in>set B'. int (length b) \<le> n) \<and> int (length c') \<le> n"
proof (induction xs arbitrary: B c)
  case Nil
  then show ?case by simp
next
  case (Cons x xs)
  show ?case
  proof (cases "int (length c) \<ge> n")
    case True
    with Cons.prems(4) have "batch_items (Some n) xs (B @ [c], [x]) = (B', c')" by simp
    moreover have "\<forall>b\<in>set (B @ [c]). int (length b) \<le> n"
      using Cons.prems(2,3) by simp
    moreover have "int (length [x]) \<le> n"
      using Cons.prems(1) by simp
    ultimately show ?thesis
      using Cons.IH Cons.prems(1) by blast
  next
    case False
    with Cons.prems(4) have "batch_items (Some n) xs (B, c @ [x]) = (B', c')" by simp
    moreover have "int (length (c @ [x])) \<le> n"
      using False by simp
    ultimately show ?thesis
      using Cons.IH Cons.prems(1,2) by blast
  qed
qed

lemma batch_groups_bound:
  "1 \<le> n \<Longrightarrow> \<forall>b\<in>set B. int (length b) \<le> n \<Longrightarrow> int (length c) \<le> n
     \<Longrightarrow> batch_groups (Some n) gs (B, c) = (B', c')
     \<Longrightarrow> (\<forall>b\<in>set B'. int (length b) \<le> n) \<and> int (length c') \<le> n"
proof (induction gs arbitrary: B c)
  case Nil
  then show ?case by simp
next
  case (Cons g gs)
  obtain k v where g: "g = (k, v)" by (cases g)
  obtain B1 c1 where step: "batch_items (Some n) v (B, c) = (B1, c1)"
    by (cases "batch_items (Some n) v (B, c)")
  from batch_items_bound [OF Cons.prems(1,2,3) step]
  have 1: "\<forall>b\<in>set B1. int (length b) \<le> n" and 2: "int (length c1) \<le> n" by blast+
  from Cons.prems(4) g step have "batch_groups (Some n) gs (B1, c1) = (B', c')" by simp
  from Cons.IH [OF Cons.prems(1) 1 2 this] show ?case .
qed

lemma createBatches_bound:
  assumes "1 \<le> n"
  shows "\<forall>b\<in>set (createBatches (Some n) gs). int (length b) \<le> n"
proof -
  obtain B c where r: "batch_groups (Some n) gs ([], []) = (B, c)"
    by (cases "batch_groups (Some n) gs ([], [])")
  have "(\<forall>b\<in>set B. int (length b) \<le> n) \<and> int (length c) \<le> n"
    using batch_groups_bound [OF assms _ _ r] assms by simp
  with r show ?thesis by (auto simp: createBatches_def)
qed

subsection \<open>Grouping\<close>

lemma group_push_keys: "fst ` set (group_push x g) = insert (q_task_id x) (fst ` set g)"
  by (induction x g rule: group_push.induct) auto

lemma well_grouped_push: "well_grouped g \<Longrightarrow> well_grouped (group_push x g)"
proof (induction x g rule: group_push.induct)
  case (1 item)
  then show ?case by (simp add: well_grouped_def)
next
  case (2 item k v groups)
  show ?case
  proof (cases "k = q_task_id item")
    case True
    with "2.prems" show ?thesis by (auto simp: well_grouped_def)
  next
    case False
    from "2.prems" have "well_grouped groups" by (auto simp: well_grouped_def)
    with "2.IH" False have ih: "well_grouped (group_push item groups)" by simp
    from "2.prems" have "k \<notin> fst ` set groups" by (auto simp: well_grouped_def)
    with False have "k \<notin> fst ` set (group_push item groups)"
      by (simp add: group_push_keys)
    with ih "2.prems" False show ?thesis by (auto simp: well_grouped_def)
  qed
qed

lemma well_grouped_fold: "well_grouped g \<Longrightarrow> well_grouped (fold group_push xs g)"
  by (induction xs arbitrary: g) (simp_all add: well_grouped_push)

lemma group_push_mset:
  "mset (concat (map snd (group_push x g))) = add_mset x (mset (concat (map snd g)))"
  by (induction x g rule: group_push.induct) auto

lemma group_fold_mset:
  "mset (concat (map snd (fold group_push xs g))) = mset xs + mset (concat (map snd g))"
  by (induction xs arbitrary: g) (simp_all add: group_push_mset del: mset_concat)

lemma concat_sorted_groups_mset: "mset (concat (map (sort_key f) G)) = mset (concat G)"
  by (induction G) simp_all

lemma groupItems_mset:
  "mset (concat (map snd (groupItemsByTaskChronologically items))) = mset items"
proof -
  have eq: "map snd (groupItemsByTaskChronologically items) =
      map (sort_key q_created_at) (map snd (fold group_push items []))"
    by (simp add: groupItemsByTaskChronologically_def comp_def case_prod_beta)
  show ?thesis
    by (simp only: eq concat_sorted_groups_mset group_fold_mset) simp
qed

lemma sorted_wrt_concat:
  "sorted_wrt R (concat B) \<longleftrightarrow>
     (\<forall>b\<in>set B. sorted_wrt R b) \<and> sorted_wrt (\<lambda>b c. \<forall>x\<in>set b. \<forall>y\<in>set c. R x y) B"
  by (induction B) (auto simp: sorted_wrt_append)

lemma well_grouped_chronological:
  assumes "well_grouped g" and "\<forall>(k, v)\<in>set g. sorted (map q_created_at v)"
  shows "sorted_wrt chronological (concat (map snd g))"
proof -
  have inner: "\<forall>b\<in>set (map snd g). sorted_wrt chronological b"
  proof
    fix b assume "b \<in> set (map snd g)"
    then obtain k where "(k, b) \<in> set g" by auto
    with assms(2) have "sorted_wrt (\<lambda>x y. q_created_at x \<le> q_created_at y) b"
      by (auto simp: sorted_map)
    then show "sorted_wrt chronological b"
      by (rule sorted_wrt_mono_rel [rotated]) (simp add: chronological_def)
  qed
  have outer: "sorted_wrt (\<lambda>b c. \<forall>x\<in>set b. \<forall>y\<in>set c. chronological x y) (map snd g)"
    unfolding sorted_wrt_map
    unfolding sorted_wrt_iff_nth_less
  proof (intro allI impI ballI)
    fix i j x y
    assume ij: "i < j" "j < length g" and x: "x \<in> set (snd (g ! i))" and y: "y \<in> set (snd (g ! j))"
    from ij have mem: "g ! i \<in> set g" "g ! j \<in> set g" by simp_all
    from assms(1) mem x have "q_task_id x = fst (g ! i)"
      by (cases "g ! i") (auto simp: well_grouped_def)
    moreover from assms(1) mem y have "q_task_id y = fst (g ! j)"
      by (cases "g ! j") (auto simp: well_grouped_def)
    moreover from assms(1) ij have "fst (g ! i) \<noteq> fst (g ! j)"
      using nth_eq_iff_index_eq [of "map fst g" i j] by (simp add: well_grouped_def)
    ultimately show "chronological x y" by (simp add: chronological_def)
  qed
  from inner outer show ?thesis by (simp add: sorted_wrt_concat)
qed

lemma well_grouped_groupItems: "well_grouped (groupItemsByTaskChronologically items)"
proof -
  have "well_grouped (fold group_push items [])"
    by (rule well_grouped_fold) (simp add: well_grouped_def)
  then show ?thesis
    by (auto simp: groupItemsByTaskChronologically_def well_grouped_def comp_def case_prod_beta
        distinct_map inj_on_def)
qed

lemma groupItems_sorted:
  "\<forall>(k, v)\<in>set (groupItemsByTaskChronologically items). sorted (map q_created_at v)"
  by (auto simp: groupItemsByTaskChronologically_def)

lemma batches_chronological:
  "sorted_wrt chronological
     (concat (createBatches bs (groupItemsByTaskChronologically items)))"
  unfolding concat_createBatches
  by (rule well_grouped_chronological [OF well_grouped_groupItems groupItems_sorted])

subsection \<open>Reading and updating tasks\<close>

lemma mapRowToTask_is_deleted: "is_deleted (mapRowToTask r) = (r_is_deleted r \<noteq> 0)"
  and mapRowToTask_tid: "tid (mapRowToTask r) = r_id r"
  and mapRowToTask_updated_at: "updated_at (mapRowToTask r) = Instant (r_updated_at r)"
  by (simp_all add: mapRowToTask_def)

lemma getTask_None_iff:
  "getTask i db = None \<longleftrightarrow> (\<forall>r\<in>set (tasks db). r_id r = i \<longrightarrow> r_is_deleted r \<noteq> 0)"
  by (auto simp: getTask_def find_None_iff split: option.splits dest: find_Some_member)

lemma getTask_Some:
  assumes "getTask i db = Some t"
  shows "\<exists>r\<in>set (tasks db). r_id r = i \<and> r_is_deleted r = 0 \<and> t = mapRowToTask r"
proof -
  from assms obtain r where "find (\<lambda>r. r_id r = i \<and> r_is_deleted r = 0) (tasks db) = Some r"
    and t: "t = mapRowToTask r"
    by (auto simp: getTask_def split: option.splits)
  then have "r \<in> set (tasks db)" "r_id r = i" "r_is_deleted r = 0"
    by (auto dest: find_Some_member)
  with t show ?thesis by blast
qed


lemma updateTask_None:
  "getTask i db = None \<Longrightarrow> updateTask i updates now queueId qnow db = (None, db)"
  by (simp add: updateTask_def)

lemma updateTask_Some:
  assumes "getTask i db = Some existing"
  shows "fst (updateTask i updates now queueId qnow db) = Some (updated_task i existing updates now)"
    and "tasks (snd (updateTask i updates now queueId qnow db)) =
      map (\<lambda>r. if r_id r = i \<and> r_is_deleted r = 0
            then r\<lparr>r_title := title (updated_task i existing updates now),
                   r_description := description (updated_task i existing updates now),
                   r_completed := (if completed (updated_task i existing updates now) then 1 else 0),
                   r_updated_at := now, r_sync_status := Pending\<rparr>
            else r) (tasks db)"
    and "sync_queue (snd (updateTask i updates now queueId qnow db)) =
      sync_queue db @
        [\<lparr>q_id = queueId, q_task_id = i, q_operation = Update,
          q_data = updated_task i existing updates now,
          q_created_at = qnow, q_retry_count = 0, q_error_message = None\<rparr>]"
    and "dead_letter_queue (snd (updateTask i updates now queueId qnow db)) = dead_letter_queue db"
  using assms
  by (simp_all add: updateTask_def updated_task_def Let_def addToSyncQueue_def
      tasks_db_run sync_queue_db_run dead_letter_db_run)

lemma updated_task_fields:
  "tid (updated_task i existing updates now) = i"
  "updated_at (updated_task i existing updates now) = Instant now"
  "sync_status (updated_task i existing updates now) = Pending"
  "title (updated_task i existing updates now) =
     (case p_title updates of None \<Rightarrow> title existing | Some v \<Rightarrow> v)"
  "description (updated_task i existing updates now) =
     (case p_description updates of None \<Rightarrow> description existing | Some v \<Rightarrow> v)"
  "completed (updated_task i existing updates now) =
     (case p_completed updates of None \<Rightarrow> completed existing | Some v \<Rightarrow> v)"
  "created_at (updated_task i existing updates now) =
     (case p_created_at updates of None \<Rightarrow> created_at existing | Some v \<Rightarrow> v)"
  "is_deleted (updated_task i existing updates now) =
     (case p_is_deleted updates of None \<Rightarrow> is_deleted existing | Some v \<Rightarrow> v)"
  "server_id (updated_task i existing updates now) =
     (case p_server_id updates of None \<Rightarrow> server_id existing | Some v \<Rightarrow> v)"
  "last_synced_at (updated_task i existing updates now) =
     (case p_last_synced_at updates of None \<Rightarrow> last_synced_at existing | Some v \<Rightarrow> v)"
  by (simp_all add: updated_task_def spread_def)





section \<open>Conflict resolution is last-writer-wins\<close>

text \<open>
  C1. The resolved snapshot is a function of the two \<open>updated_at\<close> values alone: it is the
  local snapshot when the local time is strictly greater, and the server snapshot when the
  server time is strictly greater and when the two times are equal. (With a date that is not
  valid neither comparison holds, and the server snapshot is returned.)
\<close>

theorem resolveConflict_last_writer_wins:
  "(js_gt (getTime (updated_at l)) (getTime (updated_at s)) \<longrightarrow> resolveConflict l s = l)
   \<and> (js_gt (getTime (updated_at s)) (getTime (updated_at l)) \<longrightarrow> resolveConflict l s = s)
   \<and> (updated_at l = updated_at s \<longrightarrow> resolveConflict l s = s)
   \<and> (updated_at l = Instant a \<and> updated_at s = Instant b \<longrightarrow>
        resolveConflict l s = (if a > b then l else s))
   \<and> resolveConflict l s =
        (if js_gt (getTime (updated_at l)) (getTime (updated_at s)) then l else s)"
proof -
  have asym: "\<not> (js_gt x y \<and> js_gt y x)" for x y
    by (cases x; cases y) auto
  have irrefl: "\<not> js_gt x x" for x
    by (cases x) auto
  show ?thesis
    unfolding resolveConflict_def Let_def
    using asym irrefl by auto
qed

theorem resolveConflict_last_writer_wins_witness:
  "js_gt (getTime (updated_at (demo_task ''a'' 7))) (getTime (updated_at (demo_task ''s'' 4)))
   \<and> resolveConflict (demo_task ''a'' 7) (demo_task ''s'' 4) = demo_task ''a'' 7
   \<and> js_gt (getTime (updated_at (demo_task ''s'' 9))) (getTime (updated_at (demo_task ''a'' 7)))
   \<and> resolveConflict (demo_task ''a'' 7) (demo_task ''s'' 9) = demo_task ''s'' 9
   \<and> updated_at (demo_task ''a'' 7) = updated_at (demo_task ''s'' 7)
   \<and> resolveConflict (demo_task ''a'' 7) (demo_task ''s'' 7) = demo_task ''s'' 7"
  using resolveConflict_last_writer_wins [of "demo_task ''a'' 7" "demo_task ''s'' 4" 7 4]
        resolveConflict_last_writer_wins [of "demo_task ''a'' 7" "demo_task ''s'' 9" 7 9]
        resolveConflict_last_writer_wins [of "demo_task ''a'' 7" "demo_task ''s'' 7" 7 7]
  by (simp add: demo_task_def)

section \<open>The failure handler and the retry bound\<close>

text \<open>
  C2. The failure handler, run on a queue item with error message \<open>e\<close>. If the item's
  \<open>retry_count + 1\<close> is below \<open>MAX_RETRIES\<close> (which is 3), the queue row of the item gets
  that count and \<open>e\<close> as its error message (so an item taken from the queue is there again
  with one retry more), the task's rows get the status \<open>Error\<close>, and the dead-letter store is
  untouched. Otherwise the dead-letter record is inserted, the task's rows
  get the status \<open>Failed\<close>, and the queue row is deleted, the three statements running in
  this order, so the deletion comes after the insertion. The handler keeps every queue row's
  \<open>retry_count\<close> below \<open>MAX_RETRIES\<close>, and no store that the services build from the empty
  one ever holds a queue row with \<open>retry_count \<ge> MAX_RETRIES\<close>.
\<close>

theorem handleSyncError_retry_or_dead_letter:
  "(q_retry_count item + 1 < MAX_RETRIES \<longrightarrow>
      sync_queue (handleSyncError item e now db) =
        map (\<lambda>q. if q_id q = q_id item
              then q\<lparr>q_retry_count := q_retry_count item + 1, q_error_message := Some e\<rparr>
              else q) (sync_queue db)
    \<and> tasks (handleSyncError item e now db) =
        map (\<lambda>r. if r_id r = q_task_id item then r\<lparr>r_sync_status := Error\<rparr> else r) (tasks db)
    \<and> dead_letter_queue (handleSyncError item e now db) = dead_letter_queue db
    \<and> (item \<in> set (sync_queue db) \<longrightarrow>
         item\<lparr>q_retry_count := q_retry_count item + 1, q_error_message := Some e\<rparr>
           \<in> set (sync_queue (handleSyncError item e now db))))
   \<and> (\<not> q_retry_count item + 1 < MAX_RETRIES \<longrightarrow>
      dead_letter_queue (handleSyncError item e now db) =
        dead_letter_queue db @ [dead_letter_of item e now]
    \<and> sync_queue (handleSyncError item e now db) =
        filter (\<lambda>q. q_id q \<noteq> q_id item) (sync_queue db)
    \<and> tasks (handleSyncError item e now db) =
        map (\<lambda>r. if r_id r = q_task_id item then r\<lparr>r_sync_status := Failed\<rparr> else r) (tasks db)
    \<and> journal (handleSyncError item e now db) =
        journal db @ [InsertDeadLetter (dead_letter_of item e now),
                      UpdateTaskStatus Failed (q_task_id item),
                      DeleteQueueById (q_id item)])
   \<and> (retry_bounded db \<longrightarrow> retry_bounded (handleSyncError item e now db))
   \<and> (reachable db0 \<longrightarrow> (\<forall>q\<in>set (sync_queue db0). q_retry_count q < MAX_RETRIES))"
proof -
  have "reachable db0 \<longrightarrow> (\<forall>q\<in>set (sync_queue db0). q_retry_count q < MAX_RETRIES)"
    using reachable_retry_bounded [of db0] by (simp add: retry_bounded_def)
  moreover have "item\<lparr>q_retry_count := q_retry_count item + 1, q_error_message := Some e\<rparr>
      \<in> set (sync_queue (handleSyncError item e now db))"
    if "q_retry_count item + 1 < MAX_RETRIES" and "item \<in> set (sync_queue db)"
    unfolding handleSyncError_retry(1) [OF that(1)] using that(2) by force
  ultimately show ?thesis
    by (simp add: handleSyncError_retry handleSyncError_exhausted retry_bounded_handleSyncError)
qed

theorem handleSyncError_retry_or_dead_letter_witness:
  "q_retry_count (demo_item ''q1'' ''a'' 5 0) + 1 < MAX_RETRIES
   \<and> map q_retry_count (sync_queue (handleSyncError (demo_item ''q1'' ''a'' 5 0) ''boom'' 9 demo_db))
       = [1, 2]
   \<and> map r_sync_status (tasks (handleSyncError (demo_item ''q1'' ''a'' 5 0) ''boom'' 9 demo_db))
       = [Error, Error]
   \<and> \<not> q_retry_count (demo_item ''q2'' ''b'' 3 2) + 1 < MAX_RETRIES
   \<and> map dl_retry_count
         (dead_letter_queue (handleSyncError (demo_item ''q2'' ''b'' 3 2) ''boom'' 9 demo_db)) = [2]
   \<and> map q_id (sync_queue (handleSyncError (demo_item ''q2'' ''b'' 3 2) ''boom'' 9 demo_db))
       = [''q1'']
   \<and> map r_sync_status (tasks (handleSyncError (demo_item ''q2'' ''b'' 3 2) ''boom'' 9 demo_db))
       = [Pending, Failed]
   \<and> retry_bounded demo_db
   \<and> retry_bounded (handleSyncError (demo_item ''q2'' ''b'' 3 2) ''boom'' 9 demo_db)
   \<and> reachable (snd (createTask demo_patch ''a'' 5 ''q1'' 5 empty_database))
   \<and> map q_retry_count
        (sync_queue (snd (createTask demo_patch ''a'' 5 ''q1'' 5 empty_database))) = [0]"
  using handleSyncError_retry_or_dead_letter
          [of "demo_item ''q1'' ''a'' 5 0" "''boom''" 9 demo_db empty_database]
        handleSyncError_retry_or_dead_letter
          [of "demo_item ''q2'' ''b'' 3 2" "''boom''" 9 demo_db
              "snd (createTask demo_patch ''a'' 5 ''q1'' 5 empty_database)"]
        demo_reachable
  by (simp add: demo_item_def demo_db_def demo_row_def dead_letter_of_def MAX_RETRIES_def
      retry_bounded_def createTask_def addToSyncQueue_def db_run_def empty_database_def Let_def
      demo_patch_def)

section \<open>The dead-letter record\<close>

text \<open>
  C9. When the failure handler finds the retries exhausted (\<open>retry_count + 1 \<ge> MAX_RETRIES\<close>),
  it appends one dead-letter record. The record copies the item's id, task id, operation and
  creation time, holds the triggering error's message as its final error message and the time
  of the move as its failure time, and its \<open>retry_count\<close> is the item's count before the
  increment: for an item within the retry bound that is \<open>MAX_RETRIES - 1\<close>, never
  \<open>MAX_RETRIES\<close>, and every item drained from a store that the services built is within the
  bound. The data is not copied: the queue's column holds the JSON text of the snapshot, and
  the dead-letter column gets the text \<^verbatim>\<open>[object Object]\<close>, because
  \<^verbatim>\<open>moveToDeadLetterQueue\<close> binds the parsed object where \<^verbatim>\<open>addToSyncQueue\<close> binds
  \<^verbatim>\<open>JSON.stringify(data)\<close>.
\<close>

theorem dead_letter_record_loses_data:
  "(q_retry_count item + 1 \<ge> MAX_RETRIES \<longrightarrow>
      (\<exists>d. dead_letter_queue (handleSyncError item e now db) = dead_letter_queue db @ [d]
         \<and> d = dead_letter_of item e now
         \<and> dl_id d = q_id item \<and> dl_task_id d = q_task_id item
         \<and> dl_operation d = q_operation item
         \<and> dl_created_at d = q_created_at item
         \<and> dl_final_error_message d = e \<and> dl_failed_at d = now
         \<and> dl_retry_count d = q_retry_count item
         \<and> (q_retry_count item < MAX_RETRIES \<longrightarrow>
               dl_retry_count d = MAX_RETRIES - 1 \<and> dl_retry_count d \<noteq> MAX_RETRIES)
         \<and> dl_data d = ObjectObjectText
         \<and> dl_data d \<noteq> queue_data_text item))
   \<and> dead_letter_queue (moveToDeadLetterQueue item e now db) =
        dead_letter_queue db @ [dead_letter_of item e now]
   \<and> (reachable db0 \<and> item \<in> set (getSyncQueueItems db0) \<longrightarrow> q_retry_count item < MAX_RETRIES)"
proof -
  have bound: "reachable db0 \<and> item \<in> set (getSyncQueueItems db0)
      \<longrightarrow> q_retry_count item < MAX_RETRIES"
    using reachable_retry_bounded [of db0]
    by (auto simp: retry_bounded_def getSyncQueueItems_def)
  have move: "dead_letter_queue (moveToDeadLetterQueue item e now db) =
      dead_letter_queue db @ [dead_letter_of item e now]"
    by (simp add: moveToDeadLetterQueue_def dead_letter_of_def dead_letter_db_run)
  have "q_retry_count item + 1 \<ge> MAX_RETRIES \<Longrightarrow>
      dead_letter_queue (handleSyncError item e now db) =
        dead_letter_queue db @ [dead_letter_of item e now]"
    by (simp add: handleSyncError_exhausted)
  moreover have "q_retry_count item + 1 \<ge> MAX_RETRIES \<Longrightarrow> q_retry_count item < MAX_RETRIES
      \<Longrightarrow> q_retry_count item = MAX_RETRIES - 1"
    by simp
  ultimately show ?thesis
    using bound move
    by (auto simp: dead_letter_of_def bound_object_text_def queue_data_text_def)
qed

theorem dead_letter_record_loses_data_witness:
  "q_retry_count (demo_item ''q2'' ''b'' 3 2) + 1 \<ge> MAX_RETRIES
   \<and> q_retry_count (demo_item ''q2'' ''b'' 3 2) < MAX_RETRIES
   \<and> dead_letter_queue (handleSyncError (demo_item ''q2'' ''b'' 3 2) ''boom'' 9 demo_db) =
       [\<lparr>dl_id = ''q2'', dl_task_id = ''b'', dl_operation = Update, dl_data = ObjectObjectText,
         dl_created_at = 3, dl_failed_at = 9, dl_retry_count = 2,
         dl_final_error_message = ''boom''\<rparr>]
   \<and> queue_data_text (demo_item ''q2'' ''b'' 3 2) = JsonText (demo_task ''b'' 3)
   \<and> reachable (snd (createTask demo_patch ''a'' 5 ''q1'' 5 empty_database))
   \<and> demo_created_item
        \<in> set (getSyncQueueItems (snd (createTask demo_patch ''a'' 5 ''q1'' 5 empty_database)))
   \<and> q_retry_count demo_created_item < MAX_RETRIES"
  using dead_letter_record_loses_data
          [of "demo_item ''q2'' ''b'' 3 2" "''boom''" 9 demo_db empty_database]
        dead_letter_record_loses_data
          [of demo_created_item "''boom''" 9 demo_db
              "snd (createTask demo_patch ''a'' 5 ''q1'' 5 empty_database)"]
        demo_reachable
  by (simp add: demo_item_def demo_db_def dead_letter_of_def MAX_RETRIES_def
      demo_created_item_def demo_created_def getSyncQueueItems_def createTask_def
      addToSyncQueue_def db_run_def bound_object_text_def queue_data_text_def
      empty_database_def demo_patch_def Let_def)

section \<open>A cycle without connectivity\<close>

text \<open>
  C5. When the connectivity probe fails, the cycle returns the result with \<open>success = False\<close>,
  no synced and no failed item, and one error, the connectivity record; it runs no statement
  and returns the store as it was, so the queue (every item's \<open>retry_count\<close> included), the
  task rows and the dead-letter store are unchanged. The result is the same whatever the store
  holds and whatever the server would have replied: nothing of the queue is read.
\<close>

theorem sync_disconnected_touches_nothing:
  "sync False replies clock BATCH_SIZE db =
     (\<lparr>success = False, synced_items = 0, failed_items = 0,
       errors = [\<lparr>se_task_id = ''connection'', se_operation = ''connectivity_check'',
                  se_error = ''Server is not reachable'', se_timestamp = clock 0\<rparr>]\<rparr>, db)
   \<and> length (errors (fst (sync False replies clock BATCH_SIZE db))) = 1
   \<and> sync_queue (snd (sync False replies clock BATCH_SIZE db)) = sync_queue db
   \<and> map q_retry_count (sync_queue (snd (sync False replies clock BATCH_SIZE db))) =
        map q_retry_count (sync_queue db)
   \<and> tasks (snd (sync False replies clock BATCH_SIZE db)) = tasks db
   \<and> dead_letter_queue (snd (sync False replies clock BATCH_SIZE db)) = dead_letter_queue db
   \<and> journal (snd (sync False replies clock BATCH_SIZE db)) = journal db
   \<and> fst (sync False replies clock BATCH_SIZE db) = fst (sync False replies' clock BATCH_SIZE' db')"
  by (simp add: sync_def Let_def)

section \<open>A successful item\<close>




section \<open>Batches\<close>

text \<open>
  With a batch size below one the bound fails: for \<open>BATCH_SIZE = 0\<close> the loop closes the
  current batch before every item, the empty one before the first item included, so the four
  items of \<open>demo_items\<close> go into an empty batch and four batches of one item, each larger
  than the batch size. When \<^verbatim>\<open>parseInt\<close> gives NaN no batch is ever closed, and all the
  items are in one batch.
\<close>

theorem batch_size_zero_counterexample:
  "\<not> (\<forall>b\<in>set (createBatches (Some 0) (groupItemsByTaskChronologically demo_items)).
         int (length b) \<le> 0)
   \<and> map length (createBatches (Some 0) (groupItemsByTaskChronologically demo_items))
       = [0, 1, 1, 1, 1]
   \<and> map length (createBatches None (groupItemsByTaskChronologically demo_items)) = [4]"
proof -
  have zero: "map length (createBatches (Some 0) (groupItemsByTaskChronologically demo_items))
      = [0, 1, 1, 1, 1]"
    by code_simp
  have nan: "map length (createBatches None (groupItemsByTaskChronologically demo_items)) = [4]"
    by code_simp
  have "\<not> (\<forall>b\<in>set (createBatches (Some 0) (groupItemsByTaskChronologically demo_items)).
         int (length b) \<le> 0)"
  proof
    assume "\<forall>b\<in>set (createBatches (Some 0) (groupItemsByTaskChronologically demo_items)).
         int (length b) \<le> 0"
    then have "\<forall>k\<in>set (map length
        (createBatches (Some 0) (groupItemsByTaskChronologically demo_items))). int k \<le> 0"
      by simp
    then show False
      unfolding zero by simp
  qed
  with zero nan show ?thesis by blast
qed

text \<open>
  C4, amended. Whatever the list of drained items: when \<open>BATCH_SIZE\<close> is a number that is at
  least one, 10 being the default, every batch has at most \<open>BATCH_SIZE\<close> items; and for every
  \<open>BATCH_SIZE\<close>, of two items \<open>a\<close> and \<open>b\<close> of the same task with \<open>a\<close> created strictly
  before \<open>b\<close>, wherever they stand in the batches, either the batch of \<open>a\<close> comes before the
  batch of \<open>b\<close>, or they are in the same batch and \<open>a\<close> stands before \<open>b\<close> in it. Items of
  different tasks are not constrained. The batches hold the drained items, each as often as it
  was drained.
\<close>

theorem batches_bounded_and_chronological:
  "(BATCH_SIZE = Some k \<and> 1 \<le> k \<longrightarrow>
      (\<forall>b\<in>set (createBatches BATCH_SIZE (groupItemsByTaskChronologically items)).
         int (length b) \<le> k))
   \<and> (\<forall>b\<in>set (createBatches (Some 10) (groupItemsByTaskChronologically items)).
         length b \<le> 10)
   \<and> (\<forall>i j m n.
         i < length (createBatches BATCH_SIZE (groupItemsByTaskChronologically items))
         \<and> j < length (createBatches BATCH_SIZE (groupItemsByTaskChronologically items))
         \<and> m < length (createBatches BATCH_SIZE (groupItemsByTaskChronologically items) ! i)
         \<and> n < length (createBatches BATCH_SIZE (groupItemsByTaskChronologically items) ! j)
         \<and> q_task_id (createBatches BATCH_SIZE (groupItemsByTaskChronologically items) ! i ! m)
             = q_task_id (createBatches BATCH_SIZE (groupItemsByTaskChronologically items) ! j ! n)
         \<and> q_created_at (createBatches BATCH_SIZE (groupItemsByTaskChronologically items) ! i ! m)
             < q_created_at (createBatches BATCH_SIZE (groupItemsByTaskChronologically items) ! j ! n)
         \<longrightarrow> i < j \<or> (i = j \<and> m < n))
   \<and> mset (concat (createBatches BATCH_SIZE (groupItemsByTaskChronologically items)))
       = mset items"
proof -
  define B where "B = createBatches BATCH_SIZE (groupItemsByTaskChronologically items)"
  have chrono: "sorted_wrt chronological (concat B)"
    unfolding B_def by (rule batches_chronological)
  then have inner: "\<And>b. b \<in> set B \<Longrightarrow> sorted_wrt chronological b"
    and outer: "sorted_wrt (\<lambda>b c. \<forall>x\<in>set b. \<forall>y\<in>set c. chronological x y) B"
    by (simp_all add: sorted_wrt_concat)
  have order: "i < j \<or> (i = j \<and> m < n)"
    if i: "i < length B" and j: "j < length B" and m: "m < length (B ! i)" and n: "n < length (B ! j)"
      and same: "q_task_id (B ! i ! m) = q_task_id (B ! j ! n)"
      and less: "q_created_at (B ! i ! m) < q_created_at (B ! j ! n)"
    for i j m n
  proof (rule ccontr)
    assume neg: "\<not> (i < j \<or> (i = j \<and> m < n))"
    have "chronological (B ! j ! n) (B ! i ! m)"
    proof (cases "j < i")
      case True
      from sorted_wrt_nth_less [OF outer True i] m n show ?thesis by simp
    next
      case False
      with neg have ij: "i = j" and nm: "n \<le> m" by auto
      show ?thesis
      proof (cases "n = m")
        case True
        with ij show ?thesis by (simp add: chronological_def)
      next
        case False
        with nm have "n < m" by simp
        from sorted_wrt_nth_less [OF inner this] i m ij show ?thesis by simp
      qed
    qed
    with same less show False by (simp add: chronological_def)
  qed
  have bound: "1 \<le> w \<Longrightarrow>
      \<forall>b\<in>set (createBatches (Some w) (groupItemsByTaskChronologically items)).
        int (length b) \<le> w" for w
    by (rule createBatches_bound)
  have sized: "BATCH_SIZE = Some k \<and> 1 \<le> k \<longrightarrow>
      (\<forall>b\<in>set (createBatches BATCH_SIZE (groupItemsByTaskChronologically items)).
         int (length b) \<le> k)"
    using bound [of k] by blast
  have ten: "\<forall>b\<in>set (createBatches (Some 10) (groupItemsByTaskChronologically items)).
      length b \<le> 10"
    using bound [of 10] by simp
  have placed: "mset (concat (createBatches BATCH_SIZE (groupItemsByTaskChronologically items)))
      = mset items"
    by (simp only: concat_createBatches groupItems_mset)
  show ?thesis
    using order sized ten placed
    unfolding B_def
    by blast
qed

theorem batches_bounded_and_chronological_witness:
  "(1::int) \<le> 2
   \<and> createBatches (Some 2) (groupItemsByTaskChronologically demo_items) = demo_batches
   \<and> list_all (\<lambda>b. int (length b) \<le> 2)
        (createBatches (Some 2) (groupItemsByTaskChronologically demo_items))
   \<and> q_task_id (demo_batches ! 0 ! 1) = q_task_id (demo_batches ! 1 ! 0)
   \<and> q_created_at (demo_batches ! 0 ! 1) < q_created_at (demo_batches ! 1 ! 0)
   \<and> mset (concat (createBatches (Some 2) (groupItemsByTaskChronologically demo_items)))
       = mset demo_items"
proof -
  have batches: "createBatches (Some 2) (groupItemsByTaskChronologically demo_items) = demo_batches"
    by code_simp
  have "list_all (\<lambda>b. int (length b) \<le> 2)
          (createBatches (Some 2) (groupItemsByTaskChronologically demo_items))
      \<and> mset (concat (createBatches (Some 2) (groupItemsByTaskChronologically demo_items)))
          = mset demo_items"
    using batches_bounded_and_chronological [of "Some 2" 2 demo_items]
    by (simp add: list_all_iff)
  moreover have "q_task_id (demo_batches ! 0 ! 1) = q_task_id (demo_batches ! 1 ! 0)
      \<and> q_created_at (demo_batches ! 0 ! 1) < q_created_at (demo_batches ! 1 ! 0)"
    by (simp add: demo_batches_def demo_item_def)
  ultimately show ?thesis
    using batches by simp
qed

section \<open>Updating a task\<close>

text \<open>
  C6. \<open>updateTask\<close>. When no row with the given id exists, or every such row is
  soft-deleted, it returns nothing and the store is exactly as it was. Otherwise, with
  \<open>existing\<close> the task that \<open>getTask\<close> finds, it returns a task whose id is the given id
  even when the patch holds another id, whose title, description and completed flag are the
  patch's where the patch gives them and the existing task's otherwise, whose \<open>updated_at\<close> is
  the new time and whose status is \<open>Pending\<close>; the live rows with that id get that title,
  description, completed flag, time and status; the queue gets one new item at its end, an
  \<open>Update\<close> of that task with the returned task as data and no retries; the dead-letter
  store is unchanged.
\<close>

theorem updateTask_contract:
  "((\<forall>r\<in>set (tasks db). r_id r = i \<longrightarrow> r_is_deleted r \<noteq> 0) \<longrightarrow>
      updateTask i updates now queueId qnow db = (None, db))
   \<and> ((\<exists>r\<in>set (tasks db). r_id r = i \<and> r_is_deleted r = 0) \<longrightarrow>
      (\<exists>existing t.
         getTask i db = Some existing
         \<and> fst (updateTask i updates now queueId qnow db) = Some t
         \<and> tid t = i
         \<and> title t = (case p_title updates of None \<Rightarrow> title existing | Some v \<Rightarrow> v)
         \<and> description t =
             (case p_description updates of None \<Rightarrow> description existing | Some v \<Rightarrow> v)
         \<and> completed t = (case p_completed updates of None \<Rightarrow> completed existing | Some v \<Rightarrow> v)
         \<and> updated_at t = Instant now
         \<and> sync_status t = Pending
         \<and> tasks (snd (updateTask i updates now queueId qnow db)) =
             map (\<lambda>r. if r_id r = i \<and> r_is_deleted r = 0
                   then r\<lparr>r_title := title t, r_description := description t,
                          r_completed := (if completed t then 1 else 0),
                          r_updated_at := now, r_sync_status := Pending\<rparr>
                   else r) (tasks db)
         \<and> sync_queue (snd (updateTask i updates now queueId qnow db)) =
             sync_queue db @
               [\<lparr>q_id = queueId, q_task_id = i, q_operation = Update, q_data = t,
                 q_created_at = qnow, q_retry_count = 0, q_error_message = None\<rparr>]
         \<and> dead_letter_queue (snd (updateTask i updates now queueId qnow db)) =
             dead_letter_queue db))"
proof (intro conjI impI)
  assume "\<forall>r\<in>set (tasks db). r_id r = i \<longrightarrow> r_is_deleted r \<noteq> 0"
  then have "getTask i db = None" by (simp add: getTask_None_iff)
  then show "updateTask i updates now queueId qnow db = (None, db)" by (rule updateTask_None)
next
  assume "\<exists>r\<in>set (tasks db). r_id r = i \<and> r_is_deleted r = 0"
  then have "getTask i db \<noteq> None" by (auto simp: getTask_None_iff)
  then obtain existing where e: "getTask i db = Some existing" by blast
  show "\<exists>existing t.
         getTask i db = Some existing
         \<and> fst (updateTask i updates now queueId qnow db) = Some t
         \<and> tid t = i
         \<and> title t = (case p_title updates of None \<Rightarrow> title existing | Some v \<Rightarrow> v)
         \<and> description t =
             (case p_description updates of None \<Rightarrow> description existing | Some v \<Rightarrow> v)
         \<and> completed t = (case p_completed updates of None \<Rightarrow> completed existing | Some v \<Rightarrow> v)
         \<and> updated_at t = Instant now
         \<and> sync_status t = Pending
         \<and> tasks (snd (updateTask i updates now queueId qnow db)) =
             map (\<lambda>r. if r_id r = i \<and> r_is_deleted r = 0
                   then r\<lparr>r_title := title t, r_description := description t,
                          r_completed := (if completed t then 1 else 0),
                          r_updated_at := now, r_sync_status := Pending\<rparr>
                   else r) (tasks db)
         \<and> sync_queue (snd (updateTask i updates now queueId qnow db)) =
             sync_queue db @
               [\<lparr>q_id = queueId, q_task_id = i, q_operation = Update, q_data = t,
                 q_created_at = qnow, q_retry_count = 0, q_error_message = None\<rparr>]
         \<and> dead_letter_queue (snd (updateTask i updates now queueId qnow db)) =
             dead_letter_queue db"
    apply (rule exI [of _ existing])
    apply (rule exI [of _ "updated_task i existing updates now"])
    apply (simp only: updateTask_Some [OF e] updated_task_fields e)
    done
qed

theorem updateTask_contract_witness:
  "getTask ''b'' demo_db = None
   \<and> updateTask ''b'' demo_override 50 ''q9'' 51 demo_db = (None, demo_db)
   \<and> (\<exists>r\<in>set (tasks demo_db). r_id r = ''a'' \<and> r_is_deleted r = 0)
   \<and> map_option tid (fst (updateTask ''a'' demo_override 50 ''q9'' 51 demo_db)) = Some ''a''
   \<and> map r_title (tasks (snd (updateTask ''a'' demo_override 50 ''q9'' 51 demo_db)))
       = [''buy bread'', ''buy milk'']
   \<and> map r_sync_status (tasks (snd (updateTask ''a'' demo_override 50 ''q9'' 51 demo_db)))
       = [Pending, Error]
   \<and> map q_operation (sync_queue (snd (updateTask ''a'' demo_override 50 ''q9'' 51 demo_db)))
       = [Update, Update, Update]
   \<and> length (sync_queue (snd (updateTask ''a'' demo_override 50 ''q9'' 51 demo_db)))
       = length (sync_queue demo_db) + 1"
proof -
  have dead: "\<forall>r\<in>set (tasks demo_db). r_id r = ''b'' \<longrightarrow> r_is_deleted r \<noteq> 0"
    by (simp add: demo_db_def demo_row_def)
  have live: "\<exists>r\<in>set (tasks demo_db). r_id r = ''a'' \<and> r_is_deleted r = 0"
    by (simp add: demo_db_def demo_row_def)
  have existing: "getTask ''a'' demo_db = Some (mapRowToTask (demo_row ''a'' 5 0 Pending))"
    by (simp add: getTask_def demo_db_def demo_row_def)
  from updateTask_contract [of demo_db "''b''" demo_override 50 "''q9''" 51] dead
  have 1: "updateTask ''b'' demo_override 50 ''q9'' 51 demo_db = (None, demo_db)"
    by blast
  from updateTask_contract [of demo_db "''a''" demo_override 50 "''q9''" 51] live
  obtain t where t: "fst (updateTask ''a'' demo_override 50 ''q9'' 51 demo_db) = Some t"
    "tid t = ''a''"
    "title t = (case p_title demo_override of None \<Rightarrow>
        title (mapRowToTask (demo_row ''a'' 5 0 Pending)) | Some v \<Rightarrow> v)"
    "tasks (snd (updateTask ''a'' demo_override 50 ''q9'' 51 demo_db)) =
             map (\<lambda>r. if r_id r = ''a'' \<and> r_is_deleted r = 0
                   then r\<lparr>r_title := title t, r_description := description t,
                          r_completed := (if completed t then 1 else 0),
                          r_updated_at := 50, r_sync_status := Pending\<rparr>
                   else r) (tasks demo_db)"
    "sync_queue (snd (updateTask ''a'' demo_override 50 ''q9'' 51 demo_db)) =
             sync_queue demo_db @
               [\<lparr>q_id = ''q9'', q_task_id = ''a'', q_operation = Update, q_data = t,
                 q_created_at = 51, q_retry_count = 0, q_error_message = None\<rparr>]"
    unfolding existing by auto
  have none: "getTask ''b'' demo_db = None"
    by (simp add: getTask_def demo_db_def demo_row_def)
  show ?thesis
    using 1 none live t
    by (simp add: demo_db_def demo_row_def demo_item_def demo_override_def)
qed

section \<open>What an update can change in the store\<close>



section \<open>Soft-deleted rows\<close>

text \<open>
  C7. A soft-deleted row of the store is not among the tasks \<open>getAllTasks\<close> returns and is
  never what \<open>getTask\<close> returns; \<open>getTask\<close> of its id returns nothing when no other row has
  that id (and, in general, when every row of the id is soft-deleted); what \<open>getTask\<close> and
  \<open>getAllTasks\<close> return is not deleted. \<open>getAllTasks\<close> returns the live rows, each once.
  \<open>getTasksNeedingSync\<close> returns the rows whose status is \<open>Pending\<close> or \<open>Error\<close>, each once
  and deleted or not, in ascending order of \<open>updated_at\<close>; so a soft-deleted row with such a
  status is among them.
\<close>

theorem soft_deleted_visibility:
  "(r \<in> set (tasks db) \<and> r_is_deleted r \<noteq> 0 \<longrightarrow>
      mapRowToTask r \<notin> set (getAllTasks db)
      \<and> getTask i db \<noteq> Some (mapRowToTask r)
      \<and> (needs_sync r \<longrightarrow> mapRowToTask r \<in> set (getTasksNeedingSync db)))
   \<and> (r \<in> set (tasks db) \<and> r_is_deleted r \<noteq> 0
        \<and> (\<forall>r'\<in>set (tasks db). r_id r' = r_id r \<longrightarrow> r' = r) \<longrightarrow> getTask (r_id r) db = None)
   \<and> ((\<forall>r'\<in>set (tasks db). r_id r' = i \<longrightarrow> r_is_deleted r' \<noteq> 0) \<longrightarrow> getTask i db = None)
   \<and> (\<forall>t\<in>set (getAllTasks db). \<not> is_deleted t)
   \<and> (getTask i db = Some t \<longrightarrow> \<not> is_deleted t \<and> tid t = i)
   \<and> mset (getAllTasks db) = mset (map mapRowToTask (filter (\<lambda>r. r_is_deleted r = 0) (tasks db)))
   \<and> (\<exists>rows. getTasksNeedingSync db = map mapRowToTask rows
         \<and> mset rows = mset (filter needs_sync (tasks db))
         \<and> sorted (map r_updated_at rows))
   \<and> sorted_wrt (\<lambda>a b. \<not> js_gt (getTime (updated_at a)) (getTime (updated_at b)))
        (getTasksNeedingSync db)"
proof -
  have hidden: "mapRowToTask r \<notin> set (getAllTasks db)" if "r_is_deleted r \<noteq> 0"
  proof
    assume "mapRowToTask r \<in> set (getAllTasks db)"
    then obtain r' where "r_is_deleted r' = 0" "mapRowToTask r' = mapRowToTask r"
      by (auto simp: getAllTasks_def)
    then have "is_deleted (mapRowToTask r) = False"
      using mapRowToTask_is_deleted [of r'] by simp
    with that show False by (simp add: mapRowToTask_is_deleted)
  qed
  have got: "\<not> is_deleted t \<and> tid t = i" if "getTask i db = Some t" for t
    using getTask_Some [OF that] by (auto simp: mapRowToTask_is_deleted mapRowToTask_tid)
  have notgot: "getTask i db \<noteq> Some (mapRowToTask r)" if "r_is_deleted r \<noteq> 0"
    using got [of "mapRowToTask r"] that by (auto simp: mapRowToTask_is_deleted)
  have shown: "mapRowToTask r \<in> set (getTasksNeedingSync db)"
    if "r \<in> set (tasks db)" "needs_sync r"
    using that by (auto simp: getTasksNeedingSync_def needs_sync_def)
  have none: "getTask i db = None" if "\<forall>r'\<in>set (tasks db). r_id r' = i \<longrightarrow> r_is_deleted r' \<noteq> 0"
    using that by (simp add: getTask_None_iff)
  have none': "getTask (r_id r) db = None"
    if "r \<in> set (tasks db)" "r_is_deleted r \<noteq> 0" "\<forall>r'\<in>set (tasks db). r_id r' = r_id r \<longrightarrow> r' = r"
    using that by (auto simp: getTask_None_iff)
  have all_live: "\<forall>t\<in>set (getAllTasks db). \<not> is_deleted t"
    by (auto simp: getAllTasks_def mapRowToTask_is_deleted)
  have all_mset: "mset (getAllTasks db) =
      mset (map mapRowToTask (filter (\<lambda>r. r_is_deleted r = 0) (tasks db)))"
    by (simp add: getAllTasks_def)
  have rows: "\<exists>rows. getTasksNeedingSync db = map mapRowToTask rows
         \<and> mset rows = mset (filter needs_sync (tasks db))
         \<and> sorted (map r_updated_at rows)"
    by (rule exI [of _ "sort_key r_updated_at (filter needs_sync (tasks db))"])
       (simp add: getTasksNeedingSync_def needs_sync_def [abs_def])
  have "sorted_wrt (\<lambda>a b. r_updated_at a \<le> r_updated_at b)
      (sort_key r_updated_at (filter needs_sync (tasks db)))"
    using sorted_sort_key [of r_updated_at "filter needs_sync (tasks db)"]
    by (simp add: sorted_map)
  then have ordered: "sorted_wrt (\<lambda>a b. \<not> js_gt (getTime (updated_at a)) (getTime (updated_at b)))
        (getTasksNeedingSync db)"
    by (simp add: getTasksNeedingSync_def needs_sync_def [abs_def] sorted_wrt_map
        mapRowToTask_updated_at not_less)
  show ?thesis
  proof (intro conjI impI)
    assume h: "r \<in> set (tasks db) \<and> r_is_deleted r \<noteq> 0"
    from h show "mapRowToTask r \<notin> set (getAllTasks db)" by (simp add: hidden)
    from h show "getTask i db \<noteq> Some (mapRowToTask r)" by (simp add: notgot)
    from h show "needs_sync r \<Longrightarrow> mapRowToTask r \<in> set (getTasksNeedingSync db)"
      by (simp add: shown)
  next
    assume "r \<in> set (tasks db) \<and> r_is_deleted r \<noteq> 0
        \<and> (\<forall>r'\<in>set (tasks db). r_id r' = r_id r \<longrightarrow> r' = r)"
    then show "getTask (r_id r) db = None" by (simp add: none')
  next
    assume "\<forall>r'\<in>set (tasks db). r_id r' = i \<longrightarrow> r_is_deleted r' \<noteq> 0"
    then show "getTask i db = None" by (rule none)
  next
    assume g: "getTask i db = Some t"
    from got [OF g] show "\<not> is_deleted t" by simp
    from got [OF g] show "tid t = i" by simp
  qed (rule all_live all_mset rows ordered)+
qed

theorem soft_deleted_visibility_witness:
  "demo_row ''b'' 3 1 Error \<in> set (tasks demo_db)
   \<and> r_is_deleted (demo_row ''b'' 3 1 Error) \<noteq> 0
   \<and> needs_sync (demo_row ''b'' 3 1 Error)
   \<and> mapRowToTask (demo_row ''b'' 3 1 Error) \<notin> set (getAllTasks demo_db)
   \<and> getTask ''b'' demo_db = None
   \<and> mapRowToTask (demo_row ''b'' 3 1 Error) \<in> set (getTasksNeedingSync demo_db)
   \<and> getTasksNeedingSync demo_db =
       [mapRowToTask (demo_row ''b'' 3 1 Error), mapRowToTask (demo_row ''a'' 5 0 Pending)]
   \<and> getTask ''a'' demo_db = Some (mapRowToTask (demo_row ''a'' 5 0 Pending))
   \<and> getAllTasks demo_db = [mapRowToTask (demo_row ''a'' 5 0 Pending)]"
proof -
  have h: "demo_row ''b'' 3 1 Error \<in> set (tasks demo_db)"
    "r_is_deleted (demo_row ''b'' 3 1 Error) \<noteq> 0"
    "needs_sync (demo_row ''b'' 3 1 Error)"
    "\<forall>r'\<in>set (tasks demo_db). r_id r' = r_id (demo_row ''b'' 3 1 Error)
        \<longrightarrow> r' = demo_row ''b'' 3 1 Error"
    by (simp_all add: demo_db_def demo_row_def needs_sync_def)
  have id: "r_id (demo_row ''b'' 3 1 Error) = ''b''"
    by (simp add: demo_row_def)
  have "mapRowToTask (demo_row ''b'' 3 1 Error) \<notin> set (getAllTasks demo_db)
      \<and> getTask ''b'' demo_db = None
      \<and> mapRowToTask (demo_row ''b'' 3 1 Error) \<in> set (getTasksNeedingSync demo_db)"
    using soft_deleted_visibility [of "demo_row ''b'' 3 1 Error" demo_db "''b''"] h
    unfolding id by blast
  moreover have "getTasksNeedingSync demo_db =
       [mapRowToTask (demo_row ''b'' 3 1 Error), mapRowToTask (demo_row ''a'' 5 0 Pending)]"
    by (simp add: getTasksNeedingSync_def demo_db_def demo_row_def)
  moreover have "getTask ''a'' demo_db = Some (mapRowToTask (demo_row ''a'' 5 0 Pending))"
    by (simp add: getTask_def demo_db_def demo_row_def)
  moreover have "getAllTasks demo_db = [mapRowToTask (demo_row ''a'' 5 0 Pending)]"
    by (simp add: getAllTasks_def demo_db_def demo_row_def)
  ultimately show ?thesis
    using h by blast
qed

section \<open>The title of a created task\<close>




end
